theory Spec2Isabelle
  imports Complex_Main "HOL-Library.AList"
begin

section \<open>Common values\<close>

text \<open>
  Exceptions the drivers raise or let through.  \<open>VendorError\<close> stands for any exception a
  vendor SDK call raises; \<open>NeverReturns\<close> is a call that blocks for ever (a blocking
  \<open>queue.get()\<close> on a device that delivers nothing).
\<close>

datatype failure =
    DeviceAlreadyConnectedError
  | DeviceNotConnectedError
  | TimeoutError
  | KeyError
  | AttributeError
  | VendorError
  | NeverReturns

text \<open>A frame is a sequence of pixels, three channels each.\<close>

type_synonym frame = "(nat \<times> nat \<times> nat) list"

text \<open>
  \<open>cv2.cvtColor(frame, cv2.COLOR_BGR2RGB)\<close>: the first and third channel change places;
  on an empty image OpenCV raises.
\<close>

definition cvtColor_BGR2RGB :: "frame \<Rightarrow> failure + frame" where
  "cvtColor_BGR2RGB fr =
     (if fr = [] then Inl VendorError else Inr (map (\<lambda>(b, g, r). (r, g, b)) fr))"

text \<open>Every call into a vendor SDK (depthai, pyniryo) is recorded in a log, in call order.\<close>

datatype sdk_call =
    DaiPipeline
  | CreateColorCamera
  | SetResolution1080P
  | SetPreviewSize "int option" "int option"
  | SetInterleaved bool
  | SetFps "int option"
  | SetBoardSocket string
  | CreateXLinkOut
  | SetStreamName string
  | PreviewLink
  | DaiDevice
  | GetOutputQueue string nat bool
  | QueueGet
  | DeviceClose
  | NiryoRobotOpen string
  | NeedCalibration
  | CalibrateAuto
  | SetLearningMode bool
  | ReadJoints
  | MoveJoints real real real real real real
  | CloseConnection

section \<open>The OAK-D camera driver (camera_oakd.py)\<close>

record OakDCameraConfig =
  fps :: "int option"
  width :: "int option"
  height :: "int option"
  socket :: string

text \<open>What the device's output queue hands to one \<open>queue.get()\<close>.\<close>

datatype queue_result = GotFrame frame | GetRaises

text \<open>
  The background thread runs \<open>_read_loop\<close>.  Its program counter names the statement it
  executes next: the loop test; in \<open>read\<close>, the connection guard, the call of
  \<open>queue.get()\<close>, and the wait inside that call for what the device delivers; the
  assignment to \<open>latest_frame\<close> under \<open>frame_lock\<close> (holding the frame just read);
  and \<open>new_frame_event.set()\<close>.
\<close>

datatype loop_pc = AtCheck | AtRead | AtCall | AtGet | AtStore frame | AtSet

datatype thread_state = NoThread | Running loop_pc | Finished

record OakDCamera =
  config :: OakDCameraConfig
  pipeline :: bool
  device :: bool
  queue :: bool
  thread :: thread_state
  stop_event :: "bool option"
  latest_frame :: "frame option"
  new_frame_event :: bool
  incoming :: "queue_result list"
  sdk_log :: "sdk_call list"

text \<open>
  \<open>pipeline\<close>, \<open>device\<close> and \<open>queue\<close> say whether the attribute is not \<open>None\<close>;
  \<open>stop_event\<close> is \<open>None\<close> or an event with its flag; \<open>incoming\<close> is what the
  device will deliver, in order; \<open>sdk_log\<close> is the log of vendor calls.
\<close>

definition OakDCamera_init :: "OakDCameraConfig \<Rightarrow> queue_result list \<Rightarrow> OakDCamera" where
  "OakDCamera_init cfg feed =
     \<lparr>config = cfg, pipeline = False, device = False, queue = False,
      thread = NoThread, stop_event = None, latest_frame = None,
      new_frame_event = False, incoming = feed, sdk_log = []\<rparr>"

definition cam_is_connected :: "OakDCamera \<Rightarrow> bool" where
  "cam_is_connected c = device c"

definition sdk :: "sdk_call list \<Rightarrow> OakDCamera \<Rightarrow> OakDCamera" where
  "sdk calls c = c\<lparr>sdk_log := sdk_log c @ calls\<rparr>"

text \<open>
  What a \<open>queue.get()\<close> that has been called comes back with, through
  \<open>getCvFrame\<close> and the conversion to RGB: nothing as long as the device delivers
  nothing, else the next delivery, which leaves the queue.
\<close>

definition deliver :: "OakDCamera \<Rightarrow> (failure + frame) \<times> OakDCamera" where
  "deliver c =
     (case incoming c of
        [] \<Rightarrow> (Inl NeverReturns, c)
      | GetRaises # rest \<Rightarrow> (Inl VendorError, c\<lparr>incoming := rest\<rparr>)
      | GotFrame f # rest \<Rightarrow> (cvtColor_BGR2RGB f, c\<lparr>incoming := rest\<rparr>))"

text \<open>\<open>read\<close>: the result (or the exception) and the state the call leaves.\<close>

definition cam_read :: "OakDCamera \<Rightarrow> (failure + frame) \<times> OakDCamera" where
  "cam_read c =
     (if \<not> cam_is_connected c then (Inl DeviceNotConnectedError, c)
      else if \<not> queue c then (Inl AttributeError, c)
      else deliver (sdk [QueueGet] c))"

text \<open>
  One statement of \<open>_read_loop\<close>, \<open>read\<close> taken statement by statement.  A thread
  waiting in \<open>queue.get()\<close> stays where it is; \<open>DeviceNotConnectedError\<close> leaves the
  loop; any other exception is logged and the loop goes on.
\<close>

definition thread_step :: "OakDCamera \<Rightarrow> OakDCamera" where
  "thread_step c =
     (case thread c of
        NoThread \<Rightarrow> c
      | Finished \<Rightarrow> c
      | Running AtCheck \<Rightarrow>
          (case stop_event c of
             None \<Rightarrow> c\<lparr>thread := Finished\<rparr>
           | Some True \<Rightarrow> c\<lparr>thread := Finished\<rparr>
           | Some False \<Rightarrow> c\<lparr>thread := Running AtRead\<rparr>)
      | Running AtRead \<Rightarrow>
          (if \<not> cam_is_connected c then c\<lparr>thread := Finished\<rparr>
           else c\<lparr>thread := Running AtCall\<rparr>)
      | Running AtCall \<Rightarrow>
          (if \<not> queue c then c\<lparr>thread := Running AtCheck\<rparr>
           else (sdk [QueueGet] c)\<lparr>thread := Running AtGet\<rparr>)
      | Running AtGet \<Rightarrow>
          (case deliver c of
             (Inr f, c') \<Rightarrow> c'\<lparr>thread := Running (AtStore f)\<rparr>
           | (Inl NeverReturns, c') \<Rightarrow> c
           | (Inl e, c') \<Rightarrow> c'\<lparr>thread := Running AtCheck\<rparr>)
      | Running (AtStore f) \<Rightarrow> c\<lparr>latest_frame := Some f, thread := Running AtSet\<rparr>
      | Running AtSet \<Rightarrow> c\<lparr>new_frame_event := True, thread := Running AtCheck\<rparr>)"

fun run_thread :: "nat \<Rightarrow> OakDCamera \<Rightarrow> OakDCamera" where
  "run_thread 0 c = c"
| "run_thread (Suc n) c = run_thread n (thread_step c)"

definition thread_is_alive :: "OakDCamera \<Rightarrow> bool" where
  "thread_is_alive c = (case thread c of Running pc \<Rightarrow> True | _ \<Rightarrow> False)"

definition start_read_thread :: "OakDCamera \<Rightarrow> OakDCamera" where
  "start_read_thread c =
     (if thread_is_alive c then c
      else c\<lparr>stop_event := Some False, thread := Running AtCheck\<rparr>)"

text \<open>
  \<open>_stop_read_thread\<close>: \<open>j\<close> is the number of statements the background thread gets to
  execute while \<open>join(timeout=2.0)\<close> waits; the join returns as soon as the thread ends.
\<close>

fun join_thread :: "nat \<Rightarrow> OakDCamera \<Rightarrow> OakDCamera" where
  "join_thread 0 c = c"
| "join_thread (Suc n) c = (if thread_is_alive c then join_thread n (thread_step c) else c)"

definition stop_read_thread :: "nat \<Rightarrow> OakDCamera \<Rightarrow> OakDCamera" where
  "stop_read_thread j c =
     (let c1 = (case stop_event c of None \<Rightarrow> c | Some b \<Rightarrow> c\<lparr>stop_event := Some True\<rparr>)
      in if thread_is_alive c1 then join_thread j c1 else c1)"

text \<open>\<open>connect\<close>: the warm-up is five synchronous reads; the first that raises ends the call.\<close>

fun warmup_reads :: "nat \<Rightarrow> OakDCamera \<Rightarrow> (failure + unit) \<times> OakDCamera" where
  "warmup_reads 0 c = (Inr (), c)"
| "warmup_reads (Suc n) c =
     (case cam_read c of
        (Inl e, c') \<Rightarrow> (Inl e, c')
      | (Inr f, c') \<Rightarrow> warmup_reads n c')"

definition cam_connect :: "bool \<Rightarrow> OakDCamera \<Rightarrow> (failure + unit) \<times> OakDCamera" where
  "cam_connect warmup c =
     (if cam_is_connected c then (Inl DeviceAlreadyConnectedError, c)
      else
        let c1 = sdk [DaiPipeline, CreateColorCamera, SetResolution1080P,
                      SetPreviewSize (width (config c)) (height (config c)),
                      SetInterleaved True, SetFps (fps (config c)),
                      SetBoardSocket (socket (config c)),
                      CreateXLinkOut, SetStreamName ''preview'', PreviewLink]
                     (c\<lparr>pipeline := True\<rparr>);
            c2 = sdk [DaiDevice, GetOutputQueue ''preview'' 4 False]
                     (c1\<lparr>device := True, queue := True\<rparr>)
        in case (if warmup then warmup_reads 5 c2 else (Inr (), c2)) of
             (Inl e, c3) \<Rightarrow> (Inl e, c3)
           | (Inr u, c3) \<Rightarrow> (Inr (), start_read_thread c3))"

text \<open>
  \<open>new_frame_event.wait(timeout)\<close>: \<open>w\<close> is the number of statements the background
  thread gets to execute before the timeout expires.  The wait returns \<open>True\<close> as soon as
  the flag is set, \<open>False\<close> when the time is up and the flag is still clear.
\<close>

fun wait_event :: "nat \<Rightarrow> OakDCamera \<Rightarrow> bool \<times> OakDCamera" where
  "wait_event 0 c = (new_frame_event c, c)"
| "wait_event (Suc n) c =
     (if new_frame_event c then (True, c) else wait_event n (thread_step c))"

text \<open>
  \<open>async_read\<close>: \<open>w\<close> as in \<open>wait_event\<close>; \<open>g\<close> is the number of statements the
  background thread executes between the return of the wait and the moment the caller
  holds \<open>frame_lock\<close>.  Under the lock the caller reads the slot and clears the event.
\<close>

definition cam_async_read ::
  "nat \<Rightarrow> nat \<Rightarrow> OakDCamera \<Rightarrow> (failure + frame option) \<times> OakDCamera" where
  "cam_async_read w g c =
     (if \<not> cam_is_connected c then (Inl DeviceNotConnectedError, c)
      else
        let c1 = (if thread c = NoThread \<or> \<not> thread_is_alive c
                  then start_read_thread c else c)
        in case wait_event w c1 of
             (False, c2) \<Rightarrow> (Inl TimeoutError, c2)
           | (True, c2) \<Rightarrow>
               (let c3 = run_thread g c2
                in (Inr (latest_frame c3), c3\<lparr>new_frame_event := False\<rparr>)))"

definition cam_disconnect :: "nat \<Rightarrow> OakDCamera \<Rightarrow> (failure + unit) \<times> OakDCamera" where
  "cam_disconnect j c =
     (if \<not> cam_is_connected c then (Inl DeviceNotConnectedError, c)
      else
        let c1 = stop_read_thread j c
        in if device c1
           then (Inr (), sdk [DeviceClose] (c1\<lparr>device := False, queue := False, pipeline := False\<rparr>))
           else (Inr (), c1))"

section \<open>Python dictionaries and strings\<close>

text \<open>
  A \<open>dict\<close> is an association list in insertion order; \<open>d[k] = v\<close> is
  \<open>AList.update\<close> (an existing key keeps its place, a new one goes last),
  \<open>d[k]\<close> raises \<open>KeyError\<close> on a missing key, \<open>d.get(k, default)\<close> does not.
\<close>

definition dict_lookup :: "('k \<times> 'v) list \<Rightarrow> 'k \<Rightarrow> failure + 'v" where
  "dict_lookup d k = (case map_of d k of None \<Rightarrow> Inl KeyError | Some v \<Rightarrow> Inr v)"

definition dict_get :: "('k \<times> 'v) list \<Rightarrow> 'k \<Rightarrow> 'v \<Rightarrow> 'v" where
  "dict_get d k dflt = (case map_of d k of None \<Rightarrow> dflt | Some v \<Rightarrow> v)"


definition endswith :: "string \<Rightarrow> string \<Rightarrow> bool" where
  "endswith s suf = (length suf \<le> length s \<and> drop (length s - length suf) s = suf)"

definition removesuffix :: "string \<Rightarrow> string \<Rightarrow> string" where
  "removesuffix s suf =
     (if suf \<noteq> [] \<and> endswith s suf then take (length s - length suf) s else s)"

section \<open>The Ned2 robot driver (ned2_follower.py, config_ned2_follower.py)\<close>

datatype max_relative =
    Scalar real
  | PerMotor "(string \<times> real) list"

record Ned2FollowerConfig =
  ip_address :: string
  port :: int
  joint_limits :: "(string \<times> real \<times> real) list"
  max_relative_target :: "max_relative option"
  cameras :: "(string \<times> OakDCameraConfig) list"
  has_gripper :: bool
  disable_torque_on_disconnect :: bool
  calibrate_on_connect :: bool

text \<open>The defaults of the dataclass; limits in thousandths of a radian divided by 1000.\<close>

definition Ned2FollowerConfig_default :: Ned2FollowerConfig where
  "Ned2FollowerConfig_default =
     \<lparr>ip_address = ''192.168.8.143'', port = 40001,
      joint_limits =
        [(''joint_1'', - 2949 / 1000, 2949 / 1000),
         (''joint_2'', - 183 / 100, 61 / 100),
         (''joint_3'', - 134 / 100, 157 / 100),
         (''joint_4'', - 2089 / 1000, 2089 / 1000),
         (''joint_5'', - 1919 / 1000, 1922 / 1000),
         (''joint_6'', - 253 / 100, 253 / 100)],
      max_relative_target = None,
      cameras = [(''top'', \<lparr>fps = Some 30, width = Some 640, height = Some 480,
                              socket = ''CAM_A''\<rparr>)],
      has_gripper = True, disable_torque_on_disconnect = False,
      calibrate_on_connect = False\<rparr>"

text \<open>
  The vendor's robot handle (\<open>pyniryo.NiryoRobot\<close>), as far as the driver looks at it:
  what \<open>need_calibration()\<close> answers and the six joint values \<open>joints\<close> yields.
\<close>

type_synonym joint_values = "real \<times> real \<times> real \<times> real \<times> real \<times> real"

record NiryoRobot =
  ip :: string
  need_calibration :: bool
  joints :: joint_values

text \<open>\<open>list(joints)\<close>\<close>

fun joints_list :: "joint_values \<Rightarrow> real list" where
  "joints_list (a, b, c, d, e, f) = [a, b, c, d, e, f]"

datatype feature = FloatType | ImageShape "int option" "int option" nat

text \<open>
  The two \<open>cached_property\<close> attributes keep what their first access computed:
  \<open>None\<close> as long as the property has not been read.
\<close>

record Ned2Follower =
  robot_config :: Ned2FollowerConfig
  robot :: "NiryoRobot option"
  robot_cameras :: "(string \<times> OakDCamera) list"
  robot_log :: "sdk_call list"
  observation_features_cache :: "(string \<times> feature) list option"
  action_features_cache :: "(string \<times> feature) list option"

text \<open>
  \<open>__init__\<close>; \<open>cams\<close> is what the framework's \<open>make_cameras_from_configs\<close> returns for
  \<open>config.cameras\<close>.
\<close>

definition Ned2Follower_init ::
  "Ned2FollowerConfig \<Rightarrow> (string \<times> OakDCamera) list \<Rightarrow> Ned2Follower" where
  "Ned2Follower_init cfg cams =
     \<lparr>robot_config = cfg, robot = None, robot_cameras = cams, robot_log = [],
      observation_features_cache = None, action_features_cache = None\<rparr>"

definition rsdk :: "sdk_call list \<Rightarrow> Ned2Follower \<Rightarrow> Ned2Follower" where
  "rsdk calls r = r\<lparr>robot_log := robot_log r @ calls\<rparr>"

subsection \<open>Features\<close>






subsection \<open>Connection life cycle\<close>

definition is_connected :: "Ned2Follower \<Rightarrow> bool" where
  "is_connected r = (robot r \<noteq> None \<and> list_all (\<lambda>(k, cam). cam_is_connected cam) (robot_cameras r))"

definition configure :: "Ned2Follower \<Rightarrow> (failure + unit) \<times> Ned2Follower" where
  "configure r =
     (if robot r = None then (Inl DeviceNotConnectedError, r)
      else (Inr (), rsdk [SetLearningMode True, SetLearningMode False] r))"

definition calibrate :: "Ned2Follower \<Rightarrow> (failure + unit) \<times> Ned2Follower" where
  "calibrate r =
     (if robot r = None then (Inl DeviceNotConnectedError, r)
      else (Inr (), rsdk [CalibrateAuto] r))"

definition is_calibrated :: "Ned2Follower \<Rightarrow> bool \<times> Ned2Follower" where
  "is_calibrated r =
     (case robot r of
        None \<Rightarrow> (True, r)
      | Some h \<Rightarrow> (\<not> need_calibration h, rsdk [NeedCalibration] r))"

text \<open>\<open>for cam in self.cameras.values(): cam.connect()\<close>; the first exception ends the loop.\<close>

fun connect_cameras ::
  "(string \<times> OakDCamera) list \<Rightarrow> (failure + unit) \<times> (string \<times> OakDCamera) list" where
  "connect_cameras [] = (Inr (), [])"
| "connect_cameras ((k, cam) # rest) =
     (case cam_connect True cam of
        (Inl e, cam') \<Rightarrow> (Inl e, (k, cam') # rest)
      | (Inr u, cam') \<Rightarrow>
          (case connect_cameras rest of (res, rest') \<Rightarrow> (res, (k, cam') # rest')))"

text \<open>\<open>connect\<close>; \<open>h\<close> is the handle \<open>NiryoRobot(ip_address)\<close> returns.\<close>

definition connect :: "bool \<Rightarrow> NiryoRobot \<Rightarrow> Ned2Follower \<Rightarrow> (failure + unit) \<times> Ned2Follower" where
  "connect calibrate_flag h r =
     (if is_connected r then (Inl DeviceAlreadyConnectedError, r)
      else
        let r1 = rsdk [NiryoRobotOpen (ip_address (robot_config r))] (r\<lparr>robot := Some h\<rparr>);
            r2 = (if calibrate_flag \<and> calibrate_on_connect (robot_config r1)
                  then (if need_calibration h
                        then rsdk [NeedCalibration, CalibrateAuto] r1
                        else rsdk [NeedCalibration] r1)
                  else r1)
        in case connect_cameras (robot_cameras r2) of
             (Inl e, cams) \<Rightarrow> (Inl e, r2\<lparr>robot_cameras := cams\<rparr>)
           | (Inr u, cams) \<Rightarrow> configure (r2\<lparr>robot_cameras := cams\<rparr>))"

text \<open>\<open>for cam in self.cameras.values(): cam.disconnect()\<close>\<close>

fun disconnect_cameras ::
  "nat \<Rightarrow> (string \<times> OakDCamera) list \<Rightarrow> (failure + unit) \<times> (string \<times> OakDCamera) list" where
  "disconnect_cameras j [] = (Inr (), [])"
| "disconnect_cameras j ((k, cam) # rest) =
     (case cam_disconnect j cam of
        (Inl e, cam') \<Rightarrow> (Inl e, (k, cam') # rest)
      | (Inr u, cam') \<Rightarrow>
          (case disconnect_cameras j rest of (res, rest') \<Rightarrow> (res, (k, cam') # rest')))"

definition disconnect :: "nat \<Rightarrow> Ned2Follower \<Rightarrow> (failure + unit) \<times> Ned2Follower" where
  "disconnect j r =
     (if \<not> is_connected r then (Inl DeviceNotConnectedError, r)
      else
        let r1 = (case robot r of
                    None \<Rightarrow> r
                  | Some h \<Rightarrow> rsdk [CloseConnection] (r\<lparr>robot := None\<rparr>))
        in case disconnect_cameras j (robot_cameras r1) of
             (res, cams) \<Rightarrow> (res, r1\<lparr>robot_cameras := cams\<rparr>))"

subsection \<open>Observations\<close>

datatype obs_value = FloatVal real | FrameVal frame

text \<open>
  \<open>for cam_key, cam in self.cameras.items(): obs_dict[cam_key] = cam.read()\<close>.
  The reader thread of a camera takes its frames from the same queue as this
  \<open>read\<close>; \<open>sched cam_key\<close> is the number of statements that thread executes before
  the \<open>queue.get()\<close> of this call.
\<close>

fun read_cameras ::
  "(string \<Rightarrow> nat) \<Rightarrow> (string \<times> OakDCamera) list \<Rightarrow> (string \<times> obs_value) list
     \<Rightarrow> (failure + (string \<times> obs_value) list) \<times> (string \<times> OakDCamera) list" where
  "read_cameras sched [] obs = (Inr obs, [])"
| "read_cameras sched ((k, cam) # rest) obs =
     (case cam_read (run_thread (sched k) cam) of
        (Inl e, cam') \<Rightarrow> (Inl e, (k, cam') # rest)
      | (Inr f, cam') \<Rightarrow>
          (case read_cameras sched rest (AList.update k (FrameVal f) obs) of
             (res, rest') \<Rightarrow> (res, (k, cam') # rest')))"

definition get_observation ::
  "(string \<Rightarrow> nat) \<Rightarrow> Ned2Follower
     \<Rightarrow> (failure + (string \<times> obs_value) list) \<times> Ned2Follower" where
  "get_observation sched r =
     (if \<not> is_connected r then (Inl DeviceNotConnectedError, r)
      else case robot r of
        None \<Rightarrow> (Inl AttributeError, r)
      | Some h \<Rightarrow>
          let r1 = rsdk [ReadJoints] r;
              jl = joints_list (joints h);
              obs_dict =
                [(''joint_1.pos'', FloatVal (jl ! 0)), (''joint_2.pos'', FloatVal (jl ! 1)),
                 (''joint_3.pos'', FloatVal (jl ! 2)), (''joint_4.pos'', FloatVal (jl ! 3)),
                 (''joint_5.pos'', FloatVal (jl ! 4)), (''joint_6.pos'', FloatVal (jl ! 5))]
          in case read_cameras sched (robot_cameras r1) obs_dict of
               (res, cams) \<Rightarrow> (res, r1\<lparr>robot_cameras := cams\<rparr>))"

subsection \<open>Actions\<close>

text \<open>
  \<open>ensure_safe_goal_position\<close> (lerobot.robots.utils) is not among the sources: it is a
  parameter, a function from the goal/present pairs and the limit to the goal positions
  that may raise.
\<close>

type_synonym safe_goal_fn =
  "(string \<times> real \<times> real) list \<Rightarrow> max_relative \<Rightarrow> failure + (string \<times> real) list"

text \<open>\<open>{key.removesuffix(".pos"): val for key, val in action.items() if key.endswith(".pos")}\<close>\<close>

definition extract_goal_pos :: "(string \<times> real) list \<Rightarrow> (string \<times> real) list" where
  "extract_goal_pos action =
     map (\<lambda>(key, val). (removesuffix key ''.pos'', val))
         (filter (\<lambda>(key, val). endswith key ''.pos'') action)"

text \<open>\<open>{f"joint_{i+1}": present_joints[i] for i in range(6)}\<close>\<close>

definition present_pos_of :: "real list \<Rightarrow> (string \<times> real) list" where
  "present_pos_of pj =
     [(''joint_1'', pj ! 0), (''joint_2'', pj ! 1), (''joint_3'', pj ! 2),
      (''joint_4'', pj ! 3), (''joint_5'', pj ! 4), (''joint_6'', pj ! 5)]"

text \<open>\<open>{key: (g_pos, present_pos[key]) for key, g_pos in goal_pos.items()}\<close>\<close>

fun goal_present_pos_of ::
  "(string \<times> real) list \<Rightarrow> (string \<times> real) list \<Rightarrow> failure + (string \<times> real \<times> real) list" where
  "goal_present_pos_of present [] = Inr []"
| "goal_present_pos_of present ((key, g_pos) # rest) =
     (case dict_lookup present key of
        Inl e \<Rightarrow> Inl e
      | Inr p \<Rightarrow>
          (case goal_present_pos_of present rest of
             Inl e \<Rightarrow> Inl e
           | Inr gp \<Rightarrow> Inr ((key, (g_pos, p)) # gp)))"

text \<open>The last three statements: the six \<open>goal_pos.get\<close>, \<open>move_joints\<close>, the returned dict.\<close>

definition command_joints ::
  "(string \<times> real) list \<Rightarrow> Ned2Follower \<Rightarrow> (failure + (string \<times> real) list) \<times> Ned2Follower" where
  "command_joints goal_pos r =
     (let j1 = dict_get goal_pos ''joint_1'' 0;
          j2 = dict_get goal_pos ''joint_2'' 0;
          j3 = dict_get goal_pos ''joint_3'' 0;
          j4 = dict_get goal_pos ''joint_4'' 0;
          j5 = dict_get goal_pos ''joint_5'' 0;
          j6 = dict_get goal_pos ''joint_6'' 0
      in (Inr (map (\<lambda>(motor, val). (motor @ ''.pos'', val)) goal_pos),
          rsdk [MoveJoints j1 j2 j3 j4 j5 j6] r))"

definition send_action ::
  "safe_goal_fn \<Rightarrow> (string \<times> real) list \<Rightarrow> Ned2Follower
     \<Rightarrow> (failure + (string \<times> real) list) \<times> Ned2Follower" where
  "send_action ensure_safe_goal_position action r =
     (if \<not> is_connected r then (Inl DeviceNotConnectedError, r)
      else
        let goal_pos = extract_goal_pos action
        in case max_relative_target (robot_config r) of
             None \<Rightarrow> command_joints goal_pos r
           | Some m \<Rightarrow>
               (case robot r of
                  None \<Rightarrow> (Inl AttributeError, r)
                | Some h \<Rightarrow>
                    let r1 = rsdk [ReadJoints] r;
                        present_pos = present_pos_of (joints_list (joints h))
                    in (case goal_present_pos_of present_pos goal_pos of
                          Inl e \<Rightarrow> (Inl e, r1)
                        | Inr gpp \<Rightarrow>
                            (case ensure_safe_goal_position gpp m of
                               Inl e \<Rightarrow> (Inl e, r1)
                             | Inr safe \<Rightarrow> command_joints safe r1))))"

section \<open>Example states\<close>

text \<open>Concrete cameras and robots on which the properties below are evaluated.\<close>

definition example_cam_config :: OakDCameraConfig where
  "example_cam_config = \<lparr>fps = Some 30, width = Some 640, height = Some 480, socket = ''CAM_A''\<rparr>"

definition cam_off :: OakDCamera where
  "cam_off = OakDCamera_init example_cam_config []"

definition cam_on :: "queue_result list \<Rightarrow> OakDCamera" where
  "cam_on feed = (OakDCamera_init example_cam_config feed)\<lparr>pipeline := True, device := True, queue := True\<rparr>"

definition example_handle :: NiryoRobot where
  "example_handle = \<lparr>ip = ''192.168.8.143'', need_calibration = False, joints = (1, 2, 3, 4, 5, 6)\<rparr>"

definition robot_off :: Ned2Follower where
  "robot_off = Ned2Follower_init Ned2FollowerConfig_default [(''top'', cam_off)]"

definition robot_on :: "queue_result list \<Rightarrow> Ned2Follower" where
  "robot_on feed = (Ned2Follower_init Ned2FollowerConfig_default [(''top'', cam_on feed)])\<lparr>robot := Some example_handle\<rparr>"

definition robot_half :: Ned2Follower where
  "robot_half = robot_off\<lparr>robot := Some example_handle\<rparr>"

text \<open>The frame the device hands to the next \<open>queue.get()\<close>, if it hands one.\<close>

definition pending_frame :: "OakDCamera \<Rightarrow> frame option" where
  "pending_frame cam = (case incoming cam of GotFrame f # rest \<Rightarrow> Some f | _ \<Rightarrow> None)"

definition motor_keys :: "string list" where
  "motor_keys =
     [''joint_1.pos'', ''joint_2.pos'', ''joint_3.pos'', ''joint_4.pos'',
      ''joint_5.pos'', ''joint_6.pos'']"

text \<open>A connected robot whose only camera is configured under the key \<open>joint_1.pos\<close>.\<close>

definition robot_clash :: Ned2Follower where
  "robot_clash =
     (Ned2Follower_init
        (Ned2FollowerConfig_default\<lparr>cameras := [(''joint_1.pos'', example_cam_config)]\<rparr>)
        [(''joint_1.pos'', cam_on [GotFrame [(10, 20, 30)]])])\<lparr>robot := Some example_handle\<rparr>"

definition joint_names :: "string list" where
  "joint_names = [''joint_1'', ''joint_2'', ''joint_3'', ''joint_4'', ''joint_5'', ''joint_6'']"

text \<open>
  The vocabulary of the statements about \<open>send_action\<close>, written without the
  functions that embed the code.  The entries of an action whose key ends in \<open>.pos\<close>,
  under the key without these four characters:
\<close>

definition selected_goals :: "(string \<times> real) list \<Rightarrow> (string \<times> real) list" where
  "selected_goals action =
     concat (map (\<lambda>(k, v). if drop (length k - 4) k = ''.pos''
                             then [(take (length k - 4) k, v)] else []) action)"

text \<open>The position a goal dict holds for a motor, and 0 when it holds none.\<close>

definition goal_or_zero :: "(string \<times> real) list \<Rightarrow> string \<Rightarrow> real" where
  "goal_or_zero goal n = (case map_of goal n of None \<Rightarrow> 0 | Some v \<Rightarrow> v)"

text \<open>The call \<open>move_joints\<close> with the six positions \<open>f\<close> gives, joint by joint.\<close>

definition move_call :: "(string \<Rightarrow> real) \<Rightarrow> sdk_call" where
  "move_call f =
     MoveJoints (f ''joint_1'') (f ''joint_2'') (f ''joint_3'') (f ''joint_4'') (f ''joint_5'')
       (f ''joint_6'')"

text \<open>The present position of a joint, among the six values of the vendor handle.\<close>

fun present_joint :: "joint_values \<Rightarrow> string \<Rightarrow> real" where
  "present_joint (a, b, c, d, e, f) n =
     (if n = ''joint_1'' then a else if n = ''joint_2'' then b else if n = ''joint_3'' then c
      else if n = ''joint_4'' then d else if n = ''joint_5'' then e else f)"

text \<open>
  The position the last vendor call commands for a joint: none when that call is not
  \<open>move_joints\<close>.
\<close>

definition commanded_joint :: "Ned2Follower \<Rightarrow> string \<Rightarrow> real option" where
  "commanded_joint r n =
     (case rev (robot_log r) of
        MoveJoints a b c d e f # earlier \<Rightarrow>
          map_of [(''joint_1'', a), (''joint_2'', b), (''joint_3'', c), (''joint_4'', d),
                  (''joint_5'', e), (''joint_6'', f)] n
      | _ \<Rightarrow> None)"

text \<open>
  A helper of the kind \<open>send_action\<close> expects, to evaluate examples: each goal is moved
  to within the limit of its present position; a per-motor limit must name every motor.
\<close>

definition clamp_goal :: "real \<Rightarrow> real \<times> real \<Rightarrow> real" where
  "clamp_goal cap gp = snd gp + max (- cap) (min (fst gp - snd gp) cap)"

fun example_safe_goal :: safe_goal_fn where
  "example_safe_goal gpp (Scalar cap) = Inr (map (\<lambda>(k, gp). (k, clamp_goal cap gp)) gpp)"
| "example_safe_goal gpp (PerMotor caps) =
     (if set (map fst gpp) = set (map fst caps)
      then Inr (map (\<lambda>(k, gp). (k, clamp_goal (dict_get caps k 0) gp)) gpp)
      else Inl VendorError)"

text \<open>A connected robot with a safety limit of a tenth of a radian.\<close>

definition robot_limited :: Ned2Follower where
  "robot_limited =
     (Ned2Follower_init (Ned2FollowerConfig_default\<lparr>max_relative_target := Some (Scalar (1 / 10))\<rparr>)
        [(''top'', cam_on [])])\<lparr>robot := Some example_handle\<rparr>"


text \<open>
  A robot as \<open>connect\<close> leaves it: the camera has read its five warm-up frames and its
  reader thread is started; the device has two more frames to deliver.
\<close>

definition example_feed :: "queue_result list" where
  "example_feed =
     [GotFrame [(0, 0, 0)], GotFrame [(0, 0, 0)], GotFrame [(0, 0, 0)], GotFrame [(0, 0, 0)],
      GotFrame [(0, 0, 0)], GotFrame [(10, 20, 30)], GotFrame [(40, 50, 60)]]"

definition robot_connected :: Ned2Follower where
  "robot_connected =
     snd (connect True example_handle
            (Ned2Follower_init Ned2FollowerConfig_default
               [(''top'', OakDCamera_init example_cam_config example_feed)]))"

text \<open>A connected robot whose camera's next \<open>queue.get()\<close> raises.\<close>

definition robot_unplugged :: Ned2Follower where
  "robot_unplugged = robot_on [GetRaises]"

(*DEFS_END*)

section \<open>Properties\<close>

subsection \<open>Life-cycle checks\<close>

text \<open>
  C1.  \<open>connect\<close> of either driver raises \<open>DeviceAlreadyConnectedError\<close> when
  \<open>is_connected\<close> holds, and \<open>read\<close>, \<open>async_read\<close>, \<open>disconnect\<close> of the camera
  and \<open>get_observation\<close>, \<open>send_action\<close>, \<open>disconnect\<close> of the robot raise
  \<open>DeviceNotConnectedError\<close> when it does not.  In each of these cases the state, and
  with it every log of vendor calls, is the one the call started from.
\<close>

theorem lifecycle_checks:
  "(cam_is_connected c \<longrightarrow> cam_connect warmup c = (Inl DeviceAlreadyConnectedError, c)) \<and>
   (\<not> cam_is_connected c \<longrightarrow>
      cam_read c = (Inl DeviceNotConnectedError, c) \<and>
      cam_async_read w g c = (Inl DeviceNotConnectedError, c) \<and>
      cam_disconnect j c = (Inl DeviceNotConnectedError, c)) \<and>
   (is_connected r \<longrightarrow> connect cal h r = (Inl DeviceAlreadyConnectedError, r)) \<and>
   (\<not> is_connected r \<longrightarrow>
      get_observation sched r = (Inl DeviceNotConnectedError, r) \<and>
      send_action esg action r = (Inl DeviceNotConnectedError, r) \<and>
      disconnect j r = (Inl DeviceNotConnectedError, r))"
  by (simp add: cam_connect_def cam_read_def cam_async_read_def cam_disconnect_def
        connect_def get_observation_def send_action_def disconnect_def)

theorem lifecycle_checks_witness:
  "cam_is_connected (cam_on []) \<and>
   cam_connect True (cam_on []) = (Inl DeviceAlreadyConnectedError, cam_on []) \<and>
   \<not> cam_is_connected cam_off \<and>
   cam_read cam_off = (Inl DeviceNotConnectedError, cam_off) \<and>
   cam_async_read 3 0 cam_off = (Inl DeviceNotConnectedError, cam_off) \<and>
   cam_disconnect 3 cam_off = (Inl DeviceNotConnectedError, cam_off) \<and>
   is_connected (robot_on []) \<and>
   connect True example_handle (robot_on []) = (Inl DeviceAlreadyConnectedError, robot_on []) \<and>
   \<not> is_connected robot_off \<and>
   get_observation (\<lambda>k. 2) robot_off = (Inl DeviceNotConnectedError, robot_off) \<and>
   send_action (\<lambda>gp m. Inr []) [(''joint_1.pos'', 1)] robot_off = (Inl DeviceNotConnectedError, robot_off) \<and>
   disconnect 3 robot_off = (Inl DeviceNotConnectedError, robot_off)"
proof -
  have on: "cam_is_connected (cam_on [])"
    by (simp add: cam_is_connected_def cam_on_def OakDCamera_init_def)
  have off: "\<not> cam_is_connected cam_off"
    by (simp add: cam_is_connected_def cam_off_def OakDCamera_init_def)
  have ron: "is_connected (robot_on [])"
    using on by (simp add: is_connected_def robot_on_def Ned2Follower_init_def)
  have roff: "\<not> is_connected robot_off"
    by (simp add: is_connected_def robot_off_def Ned2Follower_init_def)
  note a = lifecycle_checks [of "cam_on []" True 3 0 3 "robot_on []" True example_handle
      "\<lambda>k. 2" "\<lambda>gp m. Inr []" "[(''joint_1.pos'', 1)]"]
  note b = lifecycle_checks [of cam_off True 3 0 3 robot_off True example_handle
      "\<lambda>k. 2" "\<lambda>gp m. Inr []" "[(''joint_1.pos'', 1)]"]
  show ?thesis using a b on off ron roff by simp
qed

text \<open>
  C9.  With no robot handle \<open>is_calibrated\<close> is \<open>True\<close> and asks the vendor nothing;
  with a handle it is the negation of the vendor's \<open>need_calibration\<close>, asked once.
\<close>

theorem is_calibrated_handle:
  "(robot r = None \<longrightarrow> is_calibrated r = (True, r)) \<and>
   (\<forall>h. robot r = Some h \<longrightarrow>
      fst (is_calibrated r) = (\<not> need_calibration h) \<and>
      robot_log (snd (is_calibrated r)) = robot_log r @ [NeedCalibration])"
  by (simp add: is_calibrated_def rsdk_def)

theorem is_calibrated_handle_witness:
  "robot robot_off = None \<and> is_calibrated robot_off = (True, robot_off) \<and>
   robot (robot_on []) = Some example_handle \<and>
   fst (is_calibrated (robot_on [])) = (\<not> need_calibration example_handle) \<and>
   fst (is_calibrated (robot_on []))"
proof -
  have a: "robot robot_off = None"
    by (simp add: robot_off_def Ned2Follower_init_def)
  have b: "robot (robot_on []) = Some example_handle"
    by (simp add: robot_on_def)
  have c: "\<not> need_calibration example_handle"
    by (simp add: example_handle_def)
  show ?thesis
    using is_calibrated_handle [of robot_off] is_calibrated_handle [of "robot_on []"] a b c
    by simp
qed

text \<open>
  C10.  A robot with a handle and a camera that is not connected is not connected;
  \<open>disconnect\<close> raises \<open>DeviceNotConnectedError\<close> and changes nothing: the handle stays,
  no \<open>close_connection\<close> is logged, the cameras are as they were.
\<close>

theorem disconnect_half_connected:
  assumes "robot r \<noteq> None"
    and "(k, cam) \<in> set (robot_cameras r)"
    and "\<not> cam_is_connected cam"
  shows "\<not> is_connected r \<and> disconnect j r = (Inl DeviceNotConnectedError, r) \<and>
         robot (snd (disconnect j r)) \<noteq> None \<and>
         robot_log (snd (disconnect j r)) = robot_log r \<and>
         robot_cameras (snd (disconnect j r)) = robot_cameras r"
proof -
  have "\<not> list_all (\<lambda>(k, cam). cam_is_connected cam) (robot_cameras r)"
    using assms(2,3) by (auto simp: list_all_iff)
  then have nc: "\<not> is_connected r"
    by (simp add: is_connected_def)
  then have "disconnect j r = (Inl DeviceNotConnectedError, r)"
    by (simp add: disconnect_def)
  with nc assms(1) show ?thesis by simp
qed

theorem disconnect_half_connected_witness:
  "robot robot_half \<noteq> None \<and> (''top'', cam_off) \<in> set (robot_cameras robot_half) \<and>
   \<not> cam_is_connected cam_off \<and> \<not> is_connected robot_half \<and>
   disconnect 2 robot_half = (Inl DeviceNotConnectedError, robot_half)"
proof -
  have a: "robot robot_half \<noteq> None"
    by (simp add: robot_half_def)
  have b: "(''top'', cam_off) \<in> set (robot_cameras robot_half)"
    by (simp add: robot_half_def robot_off_def Ned2Follower_init_def)
  have c: "\<not> cam_is_connected cam_off"
    by (simp add: cam_is_connected_def cam_off_def OakDCamera_init_def)
  show ?thesis
    using disconnect_half_connected [OF a b c, of 2] a b c by simp
qed

subsection \<open>Dictionaries\<close>

lemma update_fresh: "k \<notin> fst ` set al \<Longrightarrow> AList.update k v al = al @ [(k, v)]"
  by (induction al) auto



subsection \<open>Features\<close>





subsection \<open>Observations\<close>

lemma thread_step_flags:
  "device (thread_step c) = device c \<and> queue (thread_step c) = queue c"
  by (simp add: thread_step_def deliver_def sdk_def
        split: thread_state.splits loop_pc.splits option.splits bool.splits list.splits
               queue_result.splits sum.splits failure.splits prod.splits)

lemma run_thread_flags:
  "device (run_thread n c) = device c \<and> queue (run_thread n c) = queue c"
  by (induction n arbitrary: c) (simp_all add: thread_step_flags)

lemma cam_read_frame:
  assumes "cam_is_connected cam" and "queue cam" and "pending_frame cam = Some f" and "f \<noteq> []"
  shows "\<exists>cam'. cam_read cam = (Inr (map (\<lambda>(b, g, r). (r, g, b)) f), cam')"
  using assms
  by (auto simp: cam_read_def deliver_def sdk_def pending_frame_def cvtColor_BGR2RGB_def
        split: list.splits queue_result.splits)

lemma read_cameras_frames:
  assumes "distinct (map fst cams)"
    and "\<forall>(k, cam) \<in> set cams. cam_is_connected cam \<and> queue cam \<and>
           (\<exists>f. pending_frame (run_thread (sched k) cam) = Some f \<and> f \<noteq> [])"
    and "fst ` set cams \<inter> fst ` set obs = {}"
  shows "\<exists>cams'. read_cameras sched cams obs =
           (Inr (obs @ map (\<lambda>(k, cam).
                   (k, FrameVal (map (\<lambda>(b, g, r). (r, g, b))
                                   (the (pending_frame (run_thread (sched k) cam)))))) cams),
            cams')"
  using assms
proof (induction cams arbitrary: obs)
  case Nil
  then show ?case by simp
next
  case (Cons kc cams)
  obtain k cam where kc: "kc = (k, cam)" by (cases kc)
  let ?c = "run_thread (sched k) cam"
  from Cons.prems(2) kc obtain f where f: "pending_frame ?c = Some f" "f \<noteq> []"
    and cq: "cam_is_connected cam" "queue cam" by auto
  have cq': "cam_is_connected ?c" "queue ?c"
    using cq by (simp_all add: cam_is_connected_def run_thread_flags)
  from cam_read_frame [OF cq' f] obtain cam' where
    rd: "cam_read ?c = (Inr (map (\<lambda>(b, g, r). (r, g, b)) f), cam')" by blast
  from Cons.prems(3) kc have fresh: "k \<notin> fst ` set obs" by auto
  let ?obs1 = "obs @ [(k, FrameVal (map (\<lambda>(b, g, r). (r, g, b)) f))]"
  have d: "distinct (map fst cams)" using Cons.prems(1) by simp
  have a: "\<forall>(k, cam) \<in> set cams. cam_is_connected cam \<and> queue cam \<and>
           (\<exists>f. pending_frame (run_thread (sched k) cam) = Some f \<and> f \<noteq> [])"
    using Cons.prems(2) by simp
  have i: "fst ` set cams \<inter> fst ` set ?obs1 = {}"
    using Cons.prems(1,3) kc by auto
  from Cons.IH [OF d a i] obtain cams' where
    "read_cameras sched cams ?obs1 =
       (Inr (?obs1 @ map (\<lambda>(k, cam).
                   (k, FrameVal (map (\<lambda>(b, g, r). (r, g, b))
                                   (the (pending_frame (run_thread (sched k) cam)))))) cams),
        cams')" by blast
  then show ?case
    by (simp add: kc rd update_fresh [OF fresh] f)
qed

lemma robot_connected_eq:
  "robot_connected =
     \<lparr>robot_config = Ned2FollowerConfig_default, robot = Some example_handle,
      robot_cameras =
        [(''top'',
          \<lparr>config = example_cam_config, pipeline = True, device = True, queue = True,
           thread = Running AtCheck, stop_event = Some False, latest_frame = None,
           new_frame_event = False,
           incoming = [GotFrame [(10, 20, 30)], GotFrame [(40, 50, 60)]],
           sdk_log =
             [DaiPipeline, CreateColorCamera, SetResolution1080P,
              SetPreviewSize (Some 640) (Some 480), SetInterleaved True, SetFps (Some 30),
              SetBoardSocket ''CAM_A'', CreateXLinkOut, SetStreamName ''preview'', PreviewLink,
              DaiDevice, GetOutputQueue ''preview'' 4 False,
              QueueGet, QueueGet, QueueGet, QueueGet, QueueGet]\<rparr>)],
      robot_log = [NiryoRobotOpen ''192.168.8.143'', SetLearningMode True, SetLearningMode False],
      observation_features_cache = None, action_features_cache = None\<rparr>"
  by (simp add: robot_connected_def connect_def Ned2Follower_init_def OakDCamera_init_def
        is_connected_def cam_is_connected_def rsdk_def sdk_def Let_def cam_connect_def
        Ned2FollowerConfig_default_def example_cam_config_def example_feed_def
        numeral_eq_Suc cam_read_def deliver_def cvtColor_BGR2RGB_def
        start_read_thread_def thread_is_alive_def configure_def)


text \<open>
  C5 (amended).  For a connected robot none of whose cameras is configured under one of the
  keys \<open>joint_1.pos\<close> .. \<open>joint_6.pos\<close>, each camera's read returning a frame,
  \<open>get_observation\<close> returns the six joint keys in joint order, each with the joint value
  read from the vendor handle, followed by one entry per camera with the frame that
  camera's read returns, converted to RGB: the next frame of the device queue that the
  camera's reader thread has not taken by then.
\<close>

theorem get_observation_entries:
  assumes "is_connected r" and "robot r = Some h"
    and "distinct (map fst (robot_cameras r))"
    and "\<forall>(k, cam) \<in> set (robot_cameras r). queue cam \<and>
           (\<exists>f. pending_frame (run_thread (sched k) cam) = Some f \<and> f \<noteq> [])"
    and "fst ` set (robot_cameras r) \<inter> set motor_keys = {}"
  shows "fst (get_observation sched r) =
           Inr (zip motor_keys (map FloatVal (joints_list (joints h))) @
                map (\<lambda>(k, cam).
                       (k, FrameVal (map (\<lambda>(b, g, r). (r, g, b))
                                       (the (pending_frame (run_thread (sched k) cam))))))
                  (robot_cameras r))"
proof -
  obtain a b c d e f where j: "joints h = (a, b, c, d, e, f)"
    by (metis prod_cases6)
  let ?obs = "[(''joint_1.pos'', FloatVal a), (''joint_2.pos'', FloatVal b),
               (''joint_3.pos'', FloatVal c), (''joint_4.pos'', FloatVal d),
               (''joint_5.pos'', FloatVal e), (''joint_6.pos'', FloatVal f)]"
  have z: "zip motor_keys [FloatVal a, FloatVal b, FloatVal c, FloatVal d, FloatVal e, FloatVal f]
             = ?obs"
    by (simp add: motor_keys_def)
  have conn: "\<forall>(k, cam) \<in> set (robot_cameras r). cam_is_connected cam \<and> queue cam \<and>
           (\<exists>f. pending_frame (run_thread (sched k) cam) = Some f \<and> f \<noteq> [])"
    using assms(1,4) by (auto simp: is_connected_def list_all_iff)
  have disj: "fst ` set (robot_cameras r) \<inter> fst ` set ?obs = {}"
    using assms(5) by (simp add: motor_keys_def)
  from read_cameras_frames [OF assms(3) conn disj] obtain cams' where
    "read_cameras sched (robot_cameras r) ?obs =
       (Inr (?obs @ map (\<lambda>(k, cam).
                   (k, FrameVal (map (\<lambda>(b, g, r). (r, g, b))
                                   (the (pending_frame (run_thread (sched k) cam))))))
                     (robot_cameras r)), cams')" by blast
  then show ?thesis
    using assms(1,2) by (simp add: get_observation_def j z rsdk_def Let_def)
qed


theorem get_observation_entries_witness:
  "is_connected robot_connected \<and>
   thread (snd (hd (robot_cameras robot_connected))) = Running AtCheck \<and>
   fst (get_observation (\<lambda>k. 4) robot_connected) =
     Inr [(''joint_1.pos'', FloatVal 1), (''joint_2.pos'', FloatVal 2),
          (''joint_3.pos'', FloatVal 3), (''joint_4.pos'', FloatVal 4),
          (''joint_5.pos'', FloatVal 5), (''joint_6.pos'', FloatVal 6),
          (''top'', FrameVal [(60, 50, 40)])] \<and>
   fst (get_observation (\<lambda>k. 3) robot_connected) =
     Inr [(''joint_1.pos'', FloatVal 1), (''joint_2.pos'', FloatVal 2),
          (''joint_3.pos'', FloatVal 3), (''joint_4.pos'', FloatVal 4),
          (''joint_5.pos'', FloatVal 5), (''joint_6.pos'', FloatVal 6),
          (''top'', FrameVal [(30, 20, 10)])]"
proof -
  note ev = robot_connected_eq is_connected_def cam_is_connected_def pending_frame_def
    numeral_eq_Suc thread_step_def deliver_def sdk_def cvtColor_BGR2RGB_def motor_keys_def
    example_handle_def
  have c: "is_connected robot_connected" by (simp add: ev)
  have h: "robot robot_connected = Some example_handle" by (simp add: ev)
  have d: "distinct (map fst (robot_cameras robot_connected))" by (simp add: ev)
  have m: "fst ` set (robot_cameras robot_connected) \<inter> set motor_keys = {}"
    by (simp add: ev)
  have q4: "\<forall>(k, cam) \<in> set (robot_cameras robot_connected). queue cam \<and>
           (\<exists>f. pending_frame (run_thread ((\<lambda>k. 4) k) cam) = Some f \<and> f \<noteq> [])"
    by (simp add: ev)
  have q3: "\<forall>(k, cam) \<in> set (robot_cameras robot_connected). queue cam \<and>
           (\<exists>f. pending_frame (run_thread ((\<lambda>k. 3) k) cam) = Some f \<and> f \<noteq> [])"
    by (simp add: ev)
  show ?thesis
    using get_observation_entries [OF c h d q4 m] get_observation_entries [OF c h d q3 m] c
    by (simp add: ev)
qed

text \<open>
  A camera configured under the key \<open>joint_1.pos\<close> takes the place of the first joint
  value: the assignment \<open>obs_dict[cam_key] = cam.read()\<close> overwrites it.  And when the
  camera's \<open>queue.get()\<close> raises, \<open>get_observation\<close> raises with it and returns no dict.
\<close>

theorem get_observation_counterexample:
  "is_connected robot_clash \<and>
   fst (get_observation (\<lambda>k. 0) robot_clash) =
     Inr [(''joint_1.pos'', FrameVal [(30, 20, 10)]), (''joint_2.pos'', FloatVal 2),
          (''joint_3.pos'', FloatVal 3), (''joint_4.pos'', FloatVal 4),
          (''joint_5.pos'', FloatVal 5), (''joint_6.pos'', FloatVal 6)] \<and>
   is_connected robot_unplugged \<and>
   fst (get_observation (\<lambda>k. 0) robot_unplugged) = Inl VendorError"
  by (simp add: is_connected_def robot_clash_def robot_unplugged_def robot_on_def
        Ned2Follower_init_def cam_on_def
        OakDCamera_init_def cam_is_connected_def get_observation_def rsdk_def sdk_def
        example_handle_def cam_read_def deliver_def cvtColor_BGR2RGB_def)

subsection \<open>Actions\<close>

lemma endswith_append: "endswith s suf \<longleftrightarrow> (\<exists>m. s = m @ suf)"
proof
  assume "endswith s suf"
  then have "take (length s - length suf) s @ suf = s"
    unfolding endswith_def by (metis append_take_drop_id)
  then show "\<exists>m. s = m @ suf" by metis
next
  assume "\<exists>m. s = m @ suf"
  then show "endswith s suf" by (auto simp: endswith_def)
qed

lemma removesuffix_append: "suf \<noteq> [] \<Longrightarrow> removesuffix (m @ suf) suf = m"
  by (simp add: removesuffix_def endswith_append)

lemma restore_suffix: "endswith k ''.pos'' \<Longrightarrow> removesuffix k ''.pos'' @ ''.pos'' = k"
  by (auto simp: endswith_append removesuffix_append)

lemma restore_extract:
  "map (\<lambda>(motor, val). (motor @ ''.pos'', val)) (extract_goal_pos action)
     = filter (\<lambda>(key, val). endswith key ''.pos'') action"
  unfolding extract_goal_pos_def
  by (induction action) (auto simp: restore_suffix)

lemma map_of_extract:
  "map_of (extract_goal_pos action) m = map_of action (m @ ''.pos'')"
  unfolding extract_goal_pos_def
proof (induction action)
  case Nil
  then show ?case by simp
next
  case (Cons kv action)
  obtain k v where kv: "kv = (k, v)" by (cases kv)
  show ?case
  proof (cases "endswith k ''.pos''")
    case True
    then obtain m' where k: "k = m' @ ''.pos''" by (auto simp: endswith_append)
    then have "removesuffix k ''.pos'' = m'" by (simp add: removesuffix_append)
    with Cons True k show ?thesis by (simp add: kv)
  next
    case False
    then have "k \<noteq> m @ ''.pos''" by (auto simp: endswith_append)
    with Cons False show ?thesis by (simp add: kv)
  qed
qed

lemma dict_get_extract:
  "dict_get (extract_goal_pos action) m d = dict_get action (m @ ''.pos'') d"
  by (simp add: dict_get_def map_of_extract)

lemma goal_present_pos_of_joints:
  "fst ` set goal \<subseteq> fst ` set present \<Longrightarrow>
   goal_present_pos_of present goal =
     Inr (map (\<lambda>(k, g). (k, g, the (map_of present k))) goal)"
proof (induction goal)
  case Nil
  then show ?case by simp
next
  case (Cons kg goal)
  obtain k g where kg: "kg = (k, g)" by (cases kg)
  from Cons.prems kg have "k \<in> fst ` set present" by simp
  then obtain p where p: "map_of present k = Some p"
    by (cases "map_of present k") (auto simp: map_of_eq_None_iff)
  from Cons have "goal_present_pos_of present goal =
     Inr (map (\<lambda>(k, g). (k, g, the (map_of present k))) goal)" by simp
  then show ?case by (simp add: kg p dict_lookup_def)
qed

lemma goal_present_pos_of_KeyError:
  "\<not> fst ` set goal \<subseteq> fst ` set present \<Longrightarrow> goal_present_pos_of present goal = Inl KeyError"
proof (induction goal)
  case Nil
  then show ?case by simp
next
  case (Cons kg goal)
  obtain k g where kg: "kg = (k, g)" by (cases kg)
  show ?case
  proof (cases "map_of present k")
    case None
    then show ?thesis by (simp add: kg dict_lookup_def)
  next
    case (Some p)
    then have "k \<in> fst ` set present" by (metis map_of_eq_None_iff option.distinct(1))
    with Cons.prems kg have "\<not> fst ` set goal \<subseteq> fst ` set present" by auto
    with Cons.IH have "goal_present_pos_of present goal = Inl KeyError" by simp
    then show ?thesis by (simp add: kg Some dict_lookup_def)
  qed
qed

lemma present_keys: "fst ` set (present_pos_of pj) = set joint_names"
  by (simp add: present_pos_of_def joint_names_def)

lemma send_action_unclamped:
  "is_connected r \<Longrightarrow> max_relative_target (robot_config r) = None \<Longrightarrow>
   send_action esg action r = command_joints (extract_goal_pos action) r"
  by (simp add: send_action_def)

lemma send_action_clamped:
  assumes "is_connected r" and "max_relative_target (robot_config r) = Some m"
    and "robot r = Some h"
    and "fst ` set (extract_goal_pos action) \<subseteq> set joint_names"
  shows "send_action esg action r =
     (case esg (map (\<lambda>(k, g). (k, g, the (map_of (present_pos_of (joints_list (joints h))) k)))
                 (extract_goal_pos action)) m of
        Inl e \<Rightarrow> (Inl e, rsdk [ReadJoints] r)
      | Inr safe \<Rightarrow> command_joints safe (rsdk [ReadJoints] r))"
  using assms
  by (simp add: send_action_def Let_def goal_present_pos_of_joints present_keys
        split: sum.splits)

lemma send_action_foreign_key:
  assumes "is_connected r" and "max_relative_target (robot_config r) = Some m"
    and "robot r = Some h"
    and "\<not> fst ` set (extract_goal_pos action) \<subseteq> set joint_names"
  shows "send_action esg action r = (Inl KeyError, rsdk [ReadJoints] r)"
  using assms
  by (simp add: send_action_def Let_def goal_present_pos_of_KeyError present_keys)

lemma selected_goals_extract: "extract_goal_pos action = selected_goals action"
proof (induction action)
  case Nil
  then show ?case by (simp add: extract_goal_pos_def selected_goals_def)
next
  case (Cons kv action)
  obtain k v where kv: "kv = (k, v)" by (cases kv)
  have l: "length ''.pos'' = 4" by simp
  have "4 \<le> length k" if "drop (length k - 4) k = ''.pos''"
  proof -
    from that have "length (drop (length k - 4) k) = 4" by simp
    then show ?thesis by simp
  qed
  then have e: "endswith k ''.pos'' \<longleftrightarrow> drop (length k - 4) k = ''.pos''"
    unfolding endswith_def l by blast
  have r: "endswith k ''.pos'' \<Longrightarrow> removesuffix k ''.pos'' = take (length k - 4) k"
    unfolding removesuffix_def l by simp
  from Cons show ?case
    using e r by (auto simp: kv extract_goal_pos_def selected_goals_def)
qed

lemma command_joints_eq:
  "command_joints goal r =
     (Inr (map (\<lambda>(n, v). (n @ ''.pos'', v)) goal),
      r\<lparr>robot_log := robot_log r @ [move_call (goal_or_zero goal)]\<rparr>)"
  by (simp add: command_joints_def Let_def rsdk_def move_call_def goal_or_zero_def dict_get_def)

lemma present_joint_eq:
  "n \<in> set joint_names \<Longrightarrow>
   the (map_of (present_pos_of (joints_list j)) n) = present_joint j n"
  by (cases j) (auto simp: joint_names_def present_pos_of_def)

lemma map_of_selected:
  "map_of (selected_goals action) n = map_of action (n @ ''.pos'')"
  using map_of_extract [of action n] by (simp add: selected_goals_extract)

lemma goal_or_zero_selected:
  "goal_or_zero (selected_goals action) = (\<lambda>n. case map_of action (n @ ''.pos'') of None \<Rightarrow> 0 | Some v \<Rightarrow> v)"
  by (rule ext) (simp add: goal_or_zero_def map_of_selected)

lemma restore_selected:
  "map (\<lambda>(n, v). (n @ ''.pos'', v)) (selected_goals action)
     = filter (\<lambda>(k, v). drop (length k - 4) k = ''.pos'') action"
proof -
  have "(\<lambda>(k, v). endswith k ''.pos'') = (\<lambda>(k, v :: real). drop (length k - 4) k = ''.pos'')"
  proof (intro ext)
    fix kv :: "string \<times> real"
    obtain k v where kv: "kv = (k, v)" by (cases kv)
    have "selected_goals [(k, v)] = extract_goal_pos [(k, v)]"
      by (simp add: selected_goals_extract)
    then have "endswith k ''.pos'' \<longleftrightarrow> drop (length k - 4) k = ''.pos''"
      by (auto simp: selected_goals_def extract_goal_pos_def split: if_splits)
    then show "(case kv of (k, v) \<Rightarrow> endswith k ''.pos'') =
               (case kv of (k, v) \<Rightarrow> drop (length k - 4) k = ''.pos'')"
      by (simp add: kv)
  qed
  with restore_extract [of action] show ?thesis
    by (simp add: selected_goals_extract)
qed

lemma pairs_eq:
  assumes "fst ` set goal \<subseteq> set joint_names"
  shows "map (\<lambda>(k, g). (k, g, the (map_of (present_pos_of (joints_list j)) k))) goal
       = map (\<lambda>(k, g). (k, g, present_joint j k)) goal"
  using assms by (induction goal) (auto simp: present_joint_eq)

lemma send_action_none:
  assumes "is_connected r" and "max_relative_target (robot_config r) = None"
  shows "send_action esg action r =
     (Inr (filter (\<lambda>(k, v). drop (length k - 4) k = ''.pos'') action),
      r\<lparr>robot_log := robot_log r @
           [move_call (\<lambda>n. case map_of action (n @ ''.pos'') of None \<Rightarrow> 0 | Some v \<Rightarrow> v)]\<rparr>)"
  using send_action_unclamped [OF assms]
  by (simp add: command_joints_eq selected_goals_extract restore_selected goal_or_zero_selected)

lemma send_action_some:
  assumes "is_connected r" and "max_relative_target (robot_config r) = Some m"
    and "robot r = Some h"
    and "fst ` set (selected_goals action) \<subseteq> set joint_names"
  shows "send_action esg action r =
     (case esg (map (\<lambda>(k, g). (k, g, present_joint (joints h) k)) (selected_goals action)) m of
        Inl e \<Rightarrow> (Inl e, r\<lparr>robot_log := robot_log r @ [ReadJoints]\<rparr>)
      | Inr safe \<Rightarrow>
          (Inr (map (\<lambda>(n, v). (n @ ''.pos'', v)) safe),
           r\<lparr>robot_log := robot_log r @ [ReadJoints, move_call (goal_or_zero safe)]\<rparr>))"
proof -
  have k: "fst ` set (extract_goal_pos action) \<subseteq> set joint_names"
    using assms(4) by (simp add: selected_goals_extract)
  show ?thesis
    using send_action_clamped [OF assms(1-3) k, of esg]
    by (simp add: selected_goals_extract pairs_eq [OF assms(4)] command_joints_eq rsdk_def
          split: sum.splits)
qed

lemma send_action_key_error:
  assumes "is_connected r" and "max_relative_target (robot_config r) = Some m"
    and "robot r = Some h"
    and "\<not> fst ` set (selected_goals action) \<subseteq> set joint_names"
  shows "send_action esg action r = (Inl KeyError, r\<lparr>robot_log := robot_log r @ [ReadJoints]\<rparr>)"
proof -
  have k: "\<not> fst ` set (extract_goal_pos action) \<subseteq> set joint_names"
    using assms(4) by (simp add: selected_goals_extract)
  show ?thesis
    using send_action_foreign_key [OF assms(1-3) k, of esg] by (simp add: rsdk_def)
qed

lemma commanded_joint_move:
  "commanded_joint (r\<lparr>robot_log := l @ [move_call f]\<rparr>) n =
     (if n \<in> set joint_names then Some (f n) else None)"
  by (simp add: commanded_joint_def move_call_def joint_names_def)

lemma robot_on_connected: "is_connected (robot_on feed)"
  by (simp add: is_connected_def robot_on_def Ned2Follower_init_def cam_on_def
        OakDCamera_init_def cam_is_connected_def)

lemma robot_limited_connected: "is_connected robot_limited"
  by (simp add: is_connected_def robot_limited_def Ned2Follower_init_def cam_on_def
        OakDCamera_init_def cam_is_connected_def)

lemmas robot_limited_fields =
  robot_limited_def Ned2Follower_init_def Ned2FollowerConfig_default_def example_handle_def

lemmas robot_on_fields =
  robot_on_def Ned2Follower_init_def Ned2FollowerConfig_default_def example_handle_def

lemmas action_eval =
  selected_goals_def joint_names_def goal_or_zero_def move_call_def clamp_goal_def
  commanded_joint_def

text \<open>
  C2 (amended).  For a connected robot and any action: when \<open>max_relative_target\<close> is
  \<open>None\<close>, \<open>move_joints\<close> is called with the requested positions unmodified (0 for a
  joint the action does not name).  When it is set and every \<open>.pos\<close> key of the
  action names one of \<open>joint_1\<close> .. \<open>joint_6\<close>, the six present positions are read, each
  requested goal is paired with its present position, the pairs go through
  \<open>ensure_safe_goal_position\<close>, and \<open>move_joints\<close> is then called with the positions
  it returns; what it raises is raised, with no \<open>move_joints\<close>.  When a \<open>.pos\<close> key
  names no joint, the call raises \<open>KeyError\<close> after reading the joints, and no
  \<open>move_joints\<close> follows.
\<close>

theorem send_action_clamping:
  assumes "is_connected r"
  shows "(max_relative_target (robot_config r) = None \<longrightarrow>
            robot_log (snd (send_action esg action r)) =
              robot_log r @
                [move_call (\<lambda>n. case map_of action (n @ ''.pos'') of None \<Rightarrow> 0 | Some v \<Rightarrow> v)]) \<and>
         (\<forall>m h. max_relative_target (robot_config r) = Some m \<and> robot r = Some h \<longrightarrow>
            (if fst ` set (selected_goals action) \<subseteq> set joint_names
             then (case esg (map (\<lambda>(k, g). (k, g, present_joint (joints h) k))
                              (selected_goals action)) m of
                     Inl e \<Rightarrow>
                       send_action esg action r =
                         (Inl e, r\<lparr>robot_log := robot_log r @ [ReadJoints]\<rparr>)
                   | Inr safe \<Rightarrow>
                       robot_log (snd (send_action esg action r)) =
                         robot_log r @ [ReadJoints, move_call (goal_or_zero safe)])
             else send_action esg action r =
                    (Inl KeyError, r\<lparr>robot_log := robot_log r @ [ReadJoints]\<rparr>)))"
proof (intro conjI impI allI)
  assume "max_relative_target (robot_config r) = None"
  from send_action_none [OF assms this, of esg action]
  show "robot_log (snd (send_action esg action r)) =
          robot_log r @
            [move_call (\<lambda>n. case map_of action (n @ ''.pos'') of None \<Rightarrow> 0 | Some v \<Rightarrow> v)]"
    by simp
next
  fix m h
  assume a: "max_relative_target (robot_config r) = Some m \<and> robot r = Some h"
  show "if fst ` set (selected_goals action) \<subseteq> set joint_names
        then (case esg (map (\<lambda>(k, g). (k, g, present_joint (joints h) k))
                              (selected_goals action)) m of
                Inl e \<Rightarrow>
                  send_action esg action r =
                    (Inl e, r\<lparr>robot_log := robot_log r @ [ReadJoints]\<rparr>)
              | Inr safe \<Rightarrow>
                  robot_log (snd (send_action esg action r)) =
                    robot_log r @ [ReadJoints, move_call (goal_or_zero safe)])
        else send_action esg action r =
               (Inl KeyError, r\<lparr>robot_log := robot_log r @ [ReadJoints]\<rparr>)"
  proof (cases "fst ` set (selected_goals action) \<subseteq> set joint_names")
    case True
    from send_action_some [OF assms _ _ True, of m h esg] a True show ?thesis
      by (simp split: sum.splits)
  next
    case False
    from send_action_key_error [OF assms _ _ False, of m h esg] a False show ?thesis
      by simp
  qed
qed

theorem send_action_clamping_witness:
  "is_connected (robot_on []) \<and>
   max_relative_target (robot_config (robot_on [])) = None \<and>
   robot_log (snd (send_action example_safe_goal
                     [(''joint_1.pos'', 1 / 2), (''gripper.pos'', 1)] (robot_on [])))
     = [MoveJoints (1 / 2) 0 0 0 0 0] \<and>
   is_connected robot_limited \<and>
   max_relative_target (robot_config robot_limited) = Some (Scalar (1 / 10)) \<and>
   robot robot_limited = Some example_handle \<and>
   robot_log (snd (send_action example_safe_goal
                     [(''joint_2.pos'', 5), (''note'', 7)] robot_limited))
     = [ReadJoints, MoveJoints 0 (21 / 10) 0 0 0 0]"
proof -
  have n: "max_relative_target (robot_config (robot_on [])) = None"
    by (simp add: robot_on_fields)
  have m: "max_relative_target (robot_config robot_limited) = Some (Scalar (1 / 10))"
    by (simp add: robot_limited_fields)
  have h: "robot robot_limited = Some example_handle"
    by (simp add: robot_limited_fields)
  note a = send_action_clamping [OF robot_on_connected, of "[]" example_safe_goal
      "[(''joint_1.pos'', 1 / 2), (''gripper.pos'', 1)]"]
  note b = send_action_clamping [OF robot_limited_connected, of example_safe_goal
      "[(''joint_2.pos'', 5), (''note'', 7)]"]
  have a': "robot_log (snd (send_action example_safe_goal
                     [(''joint_1.pos'', 1 / 2), (''gripper.pos'', 1)] (robot_on [])))
     = [MoveJoints (1 / 2) 0 0 0 0 0]"
    using a n by (simp add: action_eval robot_on_fields)
  have b': "robot_log (snd (send_action example_safe_goal
                     [(''joint_2.pos'', 5), (''note'', 7)] robot_limited))
     = [ReadJoints, MoveJoints 0 (21 / 10) 0 0 0 0]"
    using b m h by (simp add: action_eval robot_limited_fields)
  show ?thesis
    using robot_on_connected robot_limited_connected n m h a' b' by simp
qed

text \<open>
  With a limit configured, a goal for \<open>gripper\<close> has no present position to be paired
  with: \<open>KeyError\<close>, the helper is not reached and nothing is commanded.
\<close>

theorem send_action_clamping_counterexample:
  "is_connected robot_limited \<and>
   max_relative_target (robot_config robot_limited) \<noteq> None \<and>
   send_action example_safe_goal [(''gripper.pos'', 1)] robot_limited =
     (Inl KeyError, robot_limited\<lparr>robot_log := [ReadJoints]\<rparr>)"
  by (simp add: robot_limited_connected robot_limited_fields send_action_def rsdk_def
        extract_goal_pos_def endswith_def removesuffix_def present_pos_of_def dict_lookup_def
        is_connected_def cam_on_def OakDCamera_init_def cam_is_connected_def)

text \<open>
  C6 (amended).  For a connected robot and any action on which \<open>send_action\<close> does not
  raise: it selects exactly the entries whose keys end in \<open>.pos\<close>, and returns the
  goal positions under the motor names with \<open>.pos\<close> restored: the selected entries
  themselves without a limit, the positions \<open>ensure_safe_goal_position\<close> returns with
  one.  \<open>move_joints\<close> receives, for each of \<open>joint_1\<close> .. \<open>joint_6\<close>, the position
  the returned dict holds for it, and 0 when it holds none; a selected name that is no
  joint is returned and not commanded.
\<close>

theorem send_action_selection:
  assumes "is_connected r"
  shows "(max_relative_target (robot_config r) = None \<longrightarrow>
            fst (send_action esg action r) =
              Inr (filter (\<lambda>(k, v). drop (length k - 4) k = ''.pos'') action) \<and>
            (\<forall>n \<in> set joint_names.
               commanded_joint (snd (send_action esg action r)) n =
                 Some (case map_of action (n @ ''.pos'') of None \<Rightarrow> 0 | Some v \<Rightarrow> v))) \<and>
         (\<forall>m h safe.
            max_relative_target (robot_config r) = Some m \<and> robot r = Some h \<and>
            fst ` set (selected_goals action) \<subseteq> set joint_names \<and>
            esg (map (\<lambda>(k, g). (k, g, present_joint (joints h) k)) (selected_goals action)) m
              = Inr safe \<longrightarrow>
            fst (send_action esg action r) = Inr (map (\<lambda>(n, v). (n @ ''.pos'', v)) safe) \<and>
            (\<forall>n \<in> set joint_names.
               commanded_joint (snd (send_action esg action r)) n =
                 Some (case map_of safe n of None \<Rightarrow> 0 | Some v \<Rightarrow> v)))"
proof (intro conjI impI allI)
  assume n: "max_relative_target (robot_config r) = None"
  note e = send_action_none [OF assms n, of esg action]
  show "fst (send_action esg action r) =
          Inr (filter (\<lambda>(k, v). drop (length k - 4) k = ''.pos'') action)"
    unfolding e by simp
  show "\<forall>n \<in> set joint_names.
          commanded_joint (snd (send_action esg action r)) n =
            Some (case map_of action (n @ ''.pos'') of None \<Rightarrow> 0 | Some v \<Rightarrow> v)"
    unfolding e by (simp add: commanded_joint_move)
next
  fix m h safe
  assume a: "max_relative_target (robot_config r) = Some m \<and> robot r = Some h \<and>
            fst ` set (selected_goals action) \<subseteq> set joint_names \<and>
            esg (map (\<lambda>(k, g). (k, g, present_joint (joints h) k)) (selected_goals action)) m
              = Inr safe"
  then have e: "send_action esg action r =
      (Inr (map (\<lambda>(n, v). (n @ ''.pos'', v)) safe),
       r\<lparr>robot_log := robot_log r @ [ReadJoints, move_call (goal_or_zero safe)]\<rparr>)"
    using send_action_some [OF assms, of m h action esg] by simp
  show "fst (send_action esg action r) = Inr (map (\<lambda>(n, v). (n @ ''.pos'', v)) safe)"
    unfolding e by simp
  have "commanded_joint (r\<lparr>robot_log := (robot_log r @ [ReadJoints]) @ [move_call (goal_or_zero safe)]\<rparr>) n
          = Some (goal_or_zero safe n)" if "n \<in> set joint_names" for n
    using that by (simp only: commanded_joint_move if_True)
  then show "\<forall>n \<in> set joint_names.
          commanded_joint (snd (send_action esg action r)) n =
            Some (case map_of safe n of None \<Rightarrow> 0 | Some v \<Rightarrow> v)"
    unfolding e by (simp add: goal_or_zero_def)
qed

theorem send_action_selection_witness:
  "is_connected (robot_on []) \<and>
   max_relative_target (robot_config (robot_on [])) = None \<and>
   fst (send_action example_safe_goal
          [(''joint_1.pos'', 1 / 2), (''note'', 7), (''joint_3.pos'', 2)] (robot_on []))
     = Inr [(''joint_1.pos'', 1 / 2), (''joint_3.pos'', 2)] \<and>
   commanded_joint (snd (send_action example_safe_goal
          [(''joint_1.pos'', 1 / 2), (''note'', 7), (''joint_3.pos'', 2)] (robot_on []))) ''joint_3''
     = Some 2 \<and>
   is_connected robot_limited \<and>
   max_relative_target (robot_config robot_limited) = Some (Scalar (1 / 10)) \<and>
   robot robot_limited = Some example_handle \<and>
   fst (send_action example_safe_goal [(''joint_2.pos'', 5), (''note'', 7)] robot_limited)
     = Inr [(''joint_2.pos'', 21 / 10)] \<and>
   commanded_joint (snd (send_action example_safe_goal
          [(''joint_2.pos'', 5), (''note'', 7)] robot_limited)) ''joint_2''
     = Some (21 / 10)"
proof -
  let ?a1 = "[(''joint_1.pos'', 1 / 2), (''note'', 7), (''joint_3.pos'', 2 :: real)]"
  let ?a2 = "[(''joint_2.pos'', 5), (''note'', 7 :: real)]"
  let ?safe = "[(''joint_2'', 21 / 10 :: real)]"
  have n: "max_relative_target (robot_config (robot_on [])) = None"
    by (simp add: robot_on_fields)
  have m: "max_relative_target (robot_config robot_limited) = Some (Scalar (1 / 10))"
    by (simp add: robot_limited_fields)
  have h: "robot robot_limited = Some example_handle"
    by (simp add: robot_limited_fields)
  have j3: "''joint_3'' \<in> set joint_names" and j2: "''joint_2'' \<in> set joint_names"
    by (simp_all add: joint_names_def)
  note a = send_action_selection [OF robot_on_connected, of "[]" example_safe_goal ?a1,
      THEN conjunct1, rule_format, OF n]
  have a1: "fst (send_action example_safe_goal ?a1 (robot_on []))
              = Inr [(''joint_1.pos'', 1 / 2), (''joint_3.pos'', 2)]"
    using a [THEN conjunct1] by simp
  have a2: "commanded_joint (snd (send_action example_safe_goal ?a1 (robot_on []))) ''joint_3''
              = Some 2"
    using a [THEN conjunct2, rule_format, OF j3] by simp
  have sel: "selected_goals ?a2 = [(''joint_2'', 5)]"
    by (simp add: selected_goals_def)
  have sub: "fst ` set (selected_goals ?a2) \<subseteq> set joint_names"
    unfolding sel by (simp add: joint_names_def)
  have esg: "example_safe_goal
          (map (\<lambda>(k, g). (k, g, present_joint (joints example_handle) k)) (selected_goals ?a2))
          (Scalar (1 / 10)) = Inr ?safe"
    unfolding sel by (simp add: example_handle_def clamp_goal_def)
  have hyp: "max_relative_target (robot_config robot_limited) = Some (Scalar (1 / 10)) \<and>
     robot robot_limited = Some example_handle \<and>
     fst ` set (selected_goals ?a2) \<subseteq> set joint_names \<and>
     example_safe_goal
          (map (\<lambda>(k, g). (k, g, present_joint (joints example_handle) k)) (selected_goals ?a2))
          (Scalar (1 / 10)) = Inr ?safe"
    using m h sub esg by blast
  note b = send_action_selection [OF robot_limited_connected, of example_safe_goal ?a2,
      THEN conjunct2, rule_format, OF hyp]
  have b1: "fst (send_action example_safe_goal ?a2 robot_limited) = Inr [(''joint_2.pos'', 21 / 10)]"
    using b [THEN conjunct1] by simp
  have b2: "commanded_joint (snd (send_action example_safe_goal ?a2 robot_limited)) ''joint_2''
              = Some (21 / 10)"
    using b [THEN conjunct2, rule_format, OF j2] by simp
  from robot_on_connected n a1 a2 robot_limited_connected m h b1 b2
  show ?thesis by (intro conjI)
qed

text \<open>
  Without a limit a goal for \<open>gripper\<close> is returned though \<open>move_joints\<close> was called
  with six zeros; with a limit it makes the call raise \<open>KeyError\<close>: no dict is
  returned and \<open>move_joints\<close> is not called.
\<close>

theorem send_action_selection_counterexample:
  "is_connected (robot_on []) \<and>
   send_action example_safe_goal [(''gripper.pos'', 1)] (robot_on []) =
     (Inr [(''gripper.pos'', 1)], (robot_on [])\<lparr>robot_log := [MoveJoints 0 0 0 0 0 0]\<rparr>) \<and>
   is_connected robot_limited \<and>
   send_action example_safe_goal [(''joint_1.pos'', 1 / 2), (''gripper.pos'', 1)] robot_limited =
     (Inl KeyError, robot_limited\<lparr>robot_log := [ReadJoints]\<rparr>)"
  by (simp add: robot_on_connected robot_limited_connected robot_limited_fields robot_on_def
        send_action_def rsdk_def command_joints_def dict_get_def
        extract_goal_pos_def endswith_def removesuffix_def present_pos_of_def dict_lookup_def
        is_connected_def cam_on_def OakDCamera_init_def cam_is_connected_def)




end
